theory Spec2Isabelle
  imports Complex_Main "HOL-Library.Word"
begin

section \<open>JavaScript strings\<close>

text \<open>
  A JavaScript string is a finite sequence of 16-bit code units; \<open>length\<close> counts code
  units and \<open>s[0]\<close> is the first code unit. A string literal of the source, which is
  ASCII throughout, is written \<open>js ''...''\<close>.
\<close>

type_synonym jschar = "16 word"
type_synonym jsstring = "jschar list"

definition code_unit :: "char \<Rightarrow> jschar" where
  "code_unit c = of_char c"

definition js :: "string \<Rightarrow> jsstring" where
  "js s = map code_unit s"

section \<open>Values\<close>

text \<open>
  The values the resolver meets: what \<open>JSON.parse\<close> returns (null, booleans, numbers,
  strings, arrays, objects with their own properties in insertion order), \<open>undefined\<close>,
  and what a property read on an array or object can reach through the prototype chain:
  the built-in function objects and the two prototype objects themselves.
  Numbers are only carried along, never inspected.
\<close>

datatype jsval =
    JUndefined
  | JNull
  | JBool bool
  | JNum real
  | JStr jsstring
  | JArr "jsval list"
  | JObj "(jsstring \<times> jsval) list"
  | JFunction string
  | JObjectPrototype
  | JArrayPrototype

text \<open>
  An argument of the public functions is any value of the above, or a \<open>String\<close>
  wrapper object (\<open>new String(...)\<close>), which \<open>isString\<close> accepts as well.
\<close>

datatype jsarg = Value jsval | StringObject jsstring

fun typeof :: "jsval \<Rightarrow> string" where
  "typeof JUndefined = ''undefined''"
| "typeof JNull = ''object''"
| "typeof (JBool b) = ''boolean''"
| "typeof (JNum n) = ''number''"
| "typeof (JStr s) = ''string''"
| "typeof (JArr xs) = ''object''"
| "typeof (JObj ps) = ''object''"
| "typeof (JFunction f) = ''function''"
| "typeof JObjectPrototype = ''object''"
| "typeof JArrayPrototype = ''object''"

fun isString :: "jsarg \<Rightarrow> bool" where
  "isString (Value v) = (typeof v = ''string'')"
| "isString (StringObject s) = True"

text \<open>\<open>ToString\<close> of an argument that \<open>isString\<close> accepts; other arguments never get here.\<close>

fun string_of :: "jsarg \<Rightarrow> jsstring option" where
  "string_of (Value (JStr s)) = Some s"
| "string_of (StringObject s) = Some s"
| "string_of _ = None"

section \<open>Regular expressions\<close>

text \<open>
  The fragment of regular expressions the source uses, with \<open>RegExp.prototype.test\<close>
  (no anchors, no flags): does some substring match? Matching is by derivatives.
\<close>

datatype regexp =
    RFail
  | REmpty
  | RChar jschar
  | RNotChar jschar
  | RSeq regexp regexp
  | RAlt regexp regexp
  | RStar regexp

definition RPlus :: "regexp \<Rightarrow> regexp" where
  "RPlus r = RSeq r (RStar r)"

fun nullable :: "regexp \<Rightarrow> bool" where
  "nullable RFail = False"
| "nullable REmpty = True"
| "nullable (RChar c) = False"
| "nullable (RNotChar c) = False"
| "nullable (RSeq r s) = (nullable r \<and> nullable s)"
| "nullable (RAlt r s) = (nullable r \<or> nullable s)"
| "nullable (RStar r) = True"

fun deriv :: "jschar \<Rightarrow> regexp \<Rightarrow> regexp" where
  "deriv x RFail = RFail"
| "deriv x REmpty = RFail"
| "deriv x (RChar c) = (if x = c then REmpty else RFail)"
| "deriv x (RNotChar c) = (if x = c then RFail else REmpty)"
| "deriv x (RSeq r s) =
     (if nullable r then RAlt (RSeq (deriv x r) s) (deriv x s) else RSeq (deriv x r) s)"
| "deriv x (RAlt r s) = RAlt (deriv x r) (deriv x s)"
| "deriv x (RStar r) = RSeq (deriv x r) (RStar r)"

text \<open>Some prefix of the string matches.\<close>

fun matches_prefix :: "regexp \<Rightarrow> jsstring \<Rightarrow> bool" where
  "matches_prefix r [] = nullable r"
| "matches_prefix r (x # s) = (nullable r \<or> matches_prefix (deriv x r) s)"

text \<open>Some substring matches: a match is tried at every start index, as \<open>test\<close> does.\<close>

fun RegExp_test :: "regexp \<Rightarrow> jsstring \<Rightarrow> bool" where
  "RegExp_test r [] = nullable r"
| "RegExp_test r (x # s) = (matches_prefix r (x # s) \<or> RegExp_test r s)"

section \<open>Constants of the module\<close>

text \<open>\<^verbatim>\<open>var NON_EMPTY_POINTER_REGEXP = /(\/[^\/]*)+/;\<close>\<close>

definition NON_EMPTY_POINTER_REGEXP :: regexp where
  "NON_EMPTY_POINTER_REGEXP =
     RPlus (RSeq (RChar (code_unit CHR ''/'')) (RStar (RNotChar (code_unit CHR ''/''))))"

section \<open>The validator\<close>

text \<open>
  \<^verbatim>\<open>switch (true) { case !isString(pointer): return false;
                  case '' === pointer: return true;
                  case NON_EMPTY_POINTER_REGEXP.test(pointer): return true;
                  default: return false; }\<close>
  The strict equality \<open>'' === pointer\<close> holds for the primitive empty string only;
  \<open>test\<close> converts its argument to a string.
\<close>

definition isValidJSONPointer :: "jsarg \<Rightarrow> bool" where
  "isValidJSONPointer pointer =
     (if \<not> isString pointer then False
      else if pointer = Value (JStr []) then True
      else (case string_of pointer of
              Some s \<Rightarrow> if RegExp_test NON_EMPTY_POINTER_REGEXP s then True else False
            | None \<Rightarrow> False))"

section \<open>String methods\<close>

text \<open>
  \<open>s.split(sep)\<close> with a string separator: the pieces between the occurrences of
  \<open>sep\<close>, found left to right; the empty string splits into the one-element list of
  the empty string. With the empty separator the result is the list of code units.
\<close>

function split_from :: "jsstring \<Rightarrow> jsstring \<Rightarrow> jsstring \<Rightarrow> jsstring list" where
  "split_from sep piece s =
     (if s = [] then [piece]
      else if sep \<noteq> [] \<and> take (length sep) s = sep
        then piece # split_from sep [] (drop (length sep) s)
      else split_from sep (piece @ [hd s]) (tl s))"
  by pat_completeness auto
termination
  by (relation "measure (\<lambda>(sep, piece, s). length s)") auto

declare split_from.simps [simp del]

definition String_split :: "jsstring \<Rightarrow> jsstring \<Rightarrow> jsstring list" where
  "String_split s sep = (if sep = [] then map (\<lambda>c. [c]) s else split_from sep [] s)"

text \<open>
  \<open>s.replace(new RegExp(pattern, 'g'), replacement)\<close> for a pattern without
  metacharacters, which matches itself, and a replacement without \<open>$\<close>: one scan from
  left to right, each occurrence replaced, the scan resuming after the occurrence (the
  inserted text is not scanned again).
\<close>

function replace_from :: "jsstring \<Rightarrow> jsstring \<Rightarrow> jsstring \<Rightarrow> jsstring" where
  "replace_from pattern replacement s =
     (if s = [] then []
      else if pattern \<noteq> [] \<and> take (length pattern) s = pattern
        then replacement @ replace_from pattern replacement (drop (length pattern) s)
      else hd s # replace_from pattern replacement (tl s))"
  by pat_completeness auto
termination
  by (relation "measure (\<lambda>(pattern, replacement, s). length s)") auto

declare replace_from.simps [simp del]

definition String_replace_global :: "jsstring \<Rightarrow> jsstring \<Rightarrow> jsstring \<Rightarrow> jsstring" where
  "String_replace_global s pattern replacement =
     (if pattern = [] then replacement @ concat (map (\<lambda>c. c # replacement) s)
      else replace_from pattern replacement s)"

section \<open>The module\<close>

text \<open>\<^verbatim>\<open>var SPECIAL_CHARACTERS = [['/', '~1'], ['~', '~0']];\<close>\<close>

definition SPECIAL_CHARACTERS :: "(jsstring \<times> jsstring) list" where
  "SPECIAL_CHARACTERS = [(js ''/'', js ''~1''), (js ''~'', js ''~0'')]"

definition TOKENS_SEPARATOR :: jsstring where
  "TOKENS_SEPARATOR = js ''/''"

datatype ErrorMessage =
    HYPHEN_IS_NOT_SUPPORTED_IN_ARRAY_CONTEXT
  | INVALID_DOCUMENT
  | INVALID_DOCUMENT_TYPE
  | INVALID_POINTER
  | NON_NUMBER_TOKEN_IN_ARRAY_CONTEXT
  | TOKEN_WITH_LEADING_ZERO_IN_ARRAY_CONTEXT

text \<open>
  \<^verbatim>\<open>var tokens = pointer.split(TOKENS_SEPARATOR).reverse(); tokens.pop(); return tokens;\<close>
\<close>

definition parsePointer :: "jsstring \<Rightarrow> jsstring list" where
  "parsePointer pointer = butlast (rev (String_split pointer TOKENS_SEPARATOR))"

text \<open>
  \<^verbatim>\<open>SPECIAL_CHARACTERS.forEach(function(pair) { ...
      referenceToken = referenceToken.replace(new RegExp(pair[1], 'g'), pair[0]); });\<close>
\<close>

definition unescapeReferenceToken :: "jsstring \<Rightarrow> jsstring" where
  "unescapeReferenceToken rawReferenceToken =
     foldl (\<lambda>referenceToken (character, escapeSequence).
              String_replace_global referenceToken escapeSequence character)
       rawReferenceToken SPECIAL_CHARACTERS"

section \<open>Conversion of a string to a number\<close>

text \<open>
  \<open>Number(s)\<close> on a string is \<open>NaN\<close> exactly when \<open>s\<close> is not a
  \<open>StringNumericLiteral\<close> (ECMA-262, StringToNumber): optional white space around
  nothing at all, a signed decimal literal (digits, fraction, exponent, or
  \<open>Infinity\<close>), or an unsigned binary, octal or hexadecimal integer literal.
  Only this is needed of \<open>Number\<close>: the source asks \<open>isNaN(Number(n))\<close>.
\<close>

definition StrWhiteSpaceChar :: "jschar \<Rightarrow> bool" where
  "StrWhiteSpaceChar c \<longleftrightarrow>
     c \<in> set [0x0009, 0x000B, 0x000C, 0x0020, 0x00A0, 0xFEFF,
              0x1680, 0x2000, 0x2001, 0x2002, 0x2003, 0x2004, 0x2005, 0x2006,
              0x2007, 0x2008, 0x2009, 0x200A, 0x202F, 0x205F, 0x3000,
              0x000A, 0x000D, 0x2028, 0x2029]"

definition DecimalDigit :: "jschar \<Rightarrow> bool" where
  "DecimalDigit c \<longleftrightarrow> c \<in> set (js ''0123456789'')"

definition BinaryDigit :: "jschar \<Rightarrow> bool" where
  "BinaryDigit c \<longleftrightarrow> c \<in> set (js ''01'')"

definition OctalDigit :: "jschar \<Rightarrow> bool" where
  "OctalDigit c \<longleftrightarrow> c \<in> set (js ''01234567'')"

definition HexDigit :: "jschar \<Rightarrow> bool" where
  "HexDigit c \<longleftrightarrow> c \<in> set (js ''0123456789abcdefABCDEF'')"

definition DecimalDigits :: "jsstring \<Rightarrow> bool" where
  "DecimalDigits s \<longleftrightarrow> s \<noteq> [] \<and> list_all DecimalDigit s"

definition SignedInteger :: "jsstring \<Rightarrow> bool" where
  "SignedInteger s =
     (case s of
        [] \<Rightarrow> False
      | c # r \<Rightarrow> if c \<in> set (js ''+-'') then DecimalDigits r else DecimalDigits s)"

definition ExponentPart_opt :: "jsstring \<Rightarrow> bool" where
  "ExponentPart_opt s =
     (case s of [] \<Rightarrow> True | c # r \<Rightarrow> c \<in> set (js ''eE'') \<and> SignedInteger r)"

definition StrUnsignedDecimalLiteral :: "jsstring \<Rightarrow> bool" where
  "StrUnsignedDecimalLiteral s =
     (s = js ''Infinity'' \<or>
      (let intPart = takeWhile DecimalDigit s; r = dropWhile DecimalDigit s
       in case r of
            [] \<Rightarrow> intPart \<noteq> []
          | c # r' \<Rightarrow>
              if c = code_unit CHR ''.''
              then (let fracPart = takeWhile DecimalDigit r'; r'' = dropWhile DecimalDigit r'
                    in (intPart \<noteq> [] \<or> fracPart \<noteq> []) \<and> ExponentPart_opt r'')
              else intPart \<noteq> [] \<and> ExponentPart_opt r))"

definition StrDecimalLiteral :: "jsstring \<Rightarrow> bool" where
  "StrDecimalLiteral s =
     (case s of
        [] \<Rightarrow> False
      | c # r \<Rightarrow> if c \<in> set (js ''+-'') then StrUnsignedDecimalLiteral r
                else StrUnsignedDecimalLiteral s)"

definition NonDecimalIntegerLiteral :: "jsstring \<Rightarrow> bool" where
  "NonDecimalIntegerLiteral s =
     (case s of
        z # x # r \<Rightarrow>
          z = code_unit CHR ''0'' \<and> r \<noteq> [] \<and>
          (x \<in> set (js ''bB'') \<and> list_all BinaryDigit r \<or>
           x \<in> set (js ''oO'') \<and> list_all OctalDigit r \<or>
           x \<in> set (js ''xX'') \<and> list_all HexDigit r)
      | _ \<Rightarrow> False)"

definition StrNumericLiteral :: "jsstring \<Rightarrow> bool" where
  "StrNumericLiteral s \<longleftrightarrow> StrDecimalLiteral s \<or> NonDecimalIntegerLiteral s"

definition StringNumericLiteral :: "jsstring \<Rightarrow> bool" where
  "StringNumericLiteral s =
     (let t = rev (dropWhile StrWhiteSpaceChar (rev (dropWhile StrWhiteSpaceChar s)))
      in t = [] \<or> StrNumericLiteral t)"

definition Number_isNaN :: "jsstring \<Rightarrow> bool" where
  "Number_isNaN s \<longleftrightarrow> \<not> StringNumericLiteral s"

section \<open>Property reads\<close>

text \<open>
  \<open>context[token]\<close> with a string key: the own property of that name or else the
  property found along the prototype chain, \<open>undefined\<close> when there is none. The own
  properties of an array of \<open>JSON.parse\<close> are its elements, under the canonical
  decimal strings of their indices, and \<open>length\<close>. Arrays inherit from
  \<open>Array.prototype\<close> and that from \<open>Object.prototype\<close>; objects inherit from
  \<open>Object.prototype\<close>. The tables list the string-keyed properties of the two
  prototypes (ECMA-262, 2023 edition, with Annex B).
\<close>

definition digit_value :: "jschar \<Rightarrow> nat" where
  "digit_value c = unat c - 48"

definition array_index :: "jsstring \<Rightarrow> nat option" where
  "array_index key =
     (if DecimalDigits key \<and> (key = js ''0'' \<or> hd key \<noteq> code_unit CHR ''0'')
      then Some (foldl (\<lambda>n c. 10 * n + digit_value c) 0 key)
      else None)"

definition Object_prototype_methods :: "string list" where
  "Object_prototype_methods =
     [''hasOwnProperty'', ''isPrototypeOf'', ''propertyIsEnumerable'', ''toLocaleString'',
      ''toString'', ''valueOf'', ''__defineGetter__'', ''__defineSetter__'',
      ''__lookupGetter__'', ''__lookupSetter__'']"

definition Array_prototype_methods :: "string list" where
  "Array_prototype_methods =
     [''at'', ''concat'', ''copyWithin'', ''entries'', ''every'', ''fill'', ''filter'',
      ''find'', ''findIndex'', ''findLast'', ''findLastIndex'', ''flat'', ''flatMap'',
      ''forEach'', ''includes'', ''indexOf'', ''join'', ''keys'', ''lastIndexOf'', ''map'',
      ''pop'', ''push'', ''reduce'', ''reduceRight'', ''reverse'', ''shift'', ''slice'',
      ''some'', ''sort'', ''splice'', ''toLocaleString'', ''toReversed'', ''toSorted'',
      ''toSpliced'', ''toString'', ''unshift'', ''values'', ''with'']"

fun GetPrototypeOf :: "jsval \<Rightarrow> jsval" where
  "GetPrototypeOf (JArr xs) = JArrayPrototype"
| "GetPrototypeOf (JObj ps) = JObjectPrototype"
| "GetPrototypeOf JArrayPrototype = JObjectPrototype"
| "GetPrototypeOf _ = JNull"

text \<open>\<open>__proto__\<close> is an accessor: its getter answers for the object the read started at.\<close>

definition Object_prototype_get :: "jsval \<Rightarrow> jsstring \<Rightarrow> jsval" where
  "Object_prototype_get receiver key =
     (if key = js ''__proto__'' then GetPrototypeOf receiver
      else if key = js ''constructor'' then JFunction ''Object''
      else (case find (\<lambda>m. js m = key) Object_prototype_methods of
              Some m \<Rightarrow> JFunction (''Object.prototype.'' @ m)
            | None \<Rightarrow> JUndefined))"

definition Array_prototype_get :: "jsval \<Rightarrow> jsstring \<Rightarrow> jsval" where
  "Array_prototype_get receiver key =
     (if key = js ''length'' then JNum 0
      else if key = js ''constructor'' then JFunction ''Array''
      else (case find (\<lambda>m. js m = key) Array_prototype_methods of
              Some m \<Rightarrow> JFunction (''Array.prototype.'' @ m)
            | None \<Rightarrow> Object_prototype_get receiver key))"

text \<open>The last equation is never used: the source reads properties of arrays and objects only.\<close>

fun Get :: "jsval \<Rightarrow> jsstring \<Rightarrow> jsval" where
  "Get (JArr xs) key =
     (case array_index key of
        Some i \<Rightarrow> if i < length xs then xs ! i else Array_prototype_get (JArr xs) key
      | None \<Rightarrow> if key = js ''length'' then JNum (real (length xs))
                else Array_prototype_get (JArr xs) key)"
| "Get (JObj ps) key =
     (case map_of ps key of
        Some v \<Rightarrow> v
      | None \<Rightarrow> Object_prototype_get (JObj ps) key)"
| "Get JArrayPrototype key = Array_prototype_get JArrayPrototype key"
| "Get JObjectPrototype key = Object_prototype_get JObjectPrototype key"
| "Get _ key = JUndefined"

section \<open>The evaluator\<close>

definition isObject :: "jsval \<Rightarrow> bool" where
  "isObject o' \<longleftrightarrow> ''object'' = typeof o' \<and> JNull \<noteq> o'"

fun isArray :: "jsval \<Rightarrow> bool" where
  "isArray (JArr xs) = True"
| "isArray JArrayPrototype = True"
| "isArray _ = False"

definition isNumber :: "jsstring \<Rightarrow> bool" where
  "isNumber n \<longleftrightarrow> \<not> Number_isNaN n"

definition isUndefined :: "jsval \<Rightarrow> bool" where
  "isUndefined v \<longleftrightarrow> ''undefined'' = typeof v"

text \<open>
  \<^verbatim>\<open>token = unescapeReferenceToken(token);
  if (isArray(context)) {
    if ('-' === token) throw ...HYPHEN_IS_NOT_SUPPORTED_IN_ARRAY_CONTEXT;
    if (!isNumber(token)) throw ...NON_NUMBER_TOKEN_IN_ARRAY_CONTEXT;
    if (token.length > 1 && '0' === token[0]) throw ...TOKEN_WITH_LEADING_ZERO_IN_ARRAY_CONTEXT;
    return context[token];
  }
  if (isObject(context)) return context[token];
  return;\<close>
\<close>

definition getValue :: "jsval \<Rightarrow> jsstring \<Rightarrow> ErrorMessage + jsval" where
  "getValue context rawToken =
     (let token = unescapeReferenceToken rawToken
      in if isArray context then
           if js ''-'' = token then Inl HYPHEN_IS_NOT_SUPPORTED_IN_ARRAY_CONTEXT
           else if \<not> isNumber token then Inl NON_NUMBER_TOKEN_IN_ARRAY_CONTEXT
           else if length token > 1 \<and> code_unit CHR ''0'' = token ! 0
             then Inl TOKEN_WITH_LEADING_ZERO_IN_ARRAY_CONTEXT
           else Inr (Get context token)
         else if isObject context then Inr (Get context token)
         else Inr JUndefined)"

section \<open>Resolution\<close>

text \<open>
  \<^verbatim>\<open>while (!isUndefined(value) && !isUndefined(token = tokensList.pop()))
    value = getValue(value, token);
  return value;\<close>
  \<open>pop\<close> takes the last element of the list and answers \<open>undefined\<close> on the empty
  list only, the tokens being strings. An exception of \<open>getValue\<close> leaves the loop.
\<close>

function resolve_loop :: "jsval \<Rightarrow> jsstring list \<Rightarrow> ErrorMessage + jsval" where
  "resolve_loop v tokensList =
     (if isUndefined v then Inr v
      else if tokensList = [] then Inr v
      else (case getValue v (last tokensList) of
              Inl e \<Rightarrow> Inl e
            | Inr v' \<Rightarrow> resolve_loop v' (butlast tokensList)))"
  by pat_completeness auto
termination
  by (relation "measure (\<lambda>(v, tokensList). length tokensList)") auto

declare resolve_loop.simps [simp del]

text \<open>
  \<open>getPointedValue\<close>, exported as \<open>get\<close>. \<open>JSON.parse\<close> is the platform's decoder and
  a parameter here: \<open>None\<close> when it throws. It is applied to the text of the document.
  \<^verbatim>\<open>if (!isString(target)) throw getError(ErrorMessage.INVALID_DOCUMENT_TYPE);
  if (!isValidJSONPointer(pointer)) throw getError(ErrorMessage.INVALID_POINTER);
  try { target = JSON.parse(target); }
  catch (e) { throw getError(ErrorMessage.INVALID_DOCUMENT); }
  var tokensList = parsePointer(pointer);\<close>
  Both arguments have passed \<open>isString\<close> where their text is taken, so the last case
  of the model is never reached.
\<close>

definition getPointedValue ::
  "(jsstring \<Rightarrow> jsval option) \<Rightarrow> jsarg \<Rightarrow> jsarg \<Rightarrow> ErrorMessage + jsval" where
  "getPointedValue JSON_parse target pointer =
     (if \<not> isString target then Inl INVALID_DOCUMENT_TYPE
      else if \<not> isValidJSONPointer pointer then Inl INVALID_POINTER
      else (case (string_of target, string_of pointer) of
              (Some text, Some p) \<Rightarrow>
                (case JSON_parse text of
                   None \<Rightarrow> Inl INVALID_DOCUMENT
                 | Some document \<Rightarrow> resolve_loop document (parsePointer p))
            | _ \<Rightarrow> Inl INVALID_DOCUMENT_TYPE))"

section \<open>Notions of the specification\<close>

text \<open>
  Modelled from the spec: a re-escaping function, which the source does not have. The
  spec's words: replace every literal \<open>~\<close> with \<open>~0\<close>, then every \<open>/\<close> with \<open>~1\<close>
  (the substitutions of the unescaper, reversed and in reverse order).
\<close>

definition escapeReferenceToken :: "jsstring \<Rightarrow> jsstring" where
  "escapeReferenceToken token =
     String_replace_global (String_replace_global token (js ''~'') (js ''~0''))
       (js ''/'') (js ''~1'')"

text \<open>\<open>s.includes(pattern)\<close>: the pattern occurs in the string.\<close>

fun String_includes :: "jsstring \<Rightarrow> jsstring \<Rightarrow> bool" where
  "String_includes [] pattern = (pattern = [])"
| "String_includes (x # s) pattern =
     (take (length pattern) (x # s) = pattern \<or> String_includes s pattern)"

text \<open>
  A raw token in which every \<open>~\<close> starts one of the escape sequences \<open>~0\<close> and
  \<open>~1\<close> (RFC 6901, section 3).
\<close>

fun well_escaped :: "jsstring \<Rightarrow> bool" where
  "well_escaped [] = True"
| "well_escaped [c] = (c \<noteq> code_unit CHR ''~'')"
| "well_escaped (c # d # s) =
     (if c = code_unit CHR ''~''
      then (d = code_unit CHR ''0'' \<or> d = code_unit CHR ''1'') \<and> well_escaped s
      else well_escaped (d # s))"

text \<open>Every \<open>~\<close> is followed by \<open>0\<close>: the state of a token between the two substitutions.\<close>

fun tilde_zero :: "jsstring \<Rightarrow> bool" where
  "tilde_zero [] = True"
| "tilde_zero [c] = (c \<noteq> code_unit CHR ''~'')"
| "tilde_zero (c # d # s) =
     (if c = code_unit CHR ''~'' then d = code_unit CHR ''0'' \<and> tilde_zero s
      else tilde_zero (d # s))"

text \<open>A regular expression that matches nothing, by its shape.\<close>

fun never_matches :: "regexp \<Rightarrow> bool" where
  "never_matches RFail = True"
| "never_matches (RSeq r s) = (never_matches r \<or> never_matches s)"
| "never_matches (RAlt r s) = (never_matches r \<and> never_matches s)"
| "never_matches _ = False"

text \<open>
  The resolution as the specification describes it: the tokens of a pointer in
  root-to-leaf order (the pointer split on \<open>/\<close>, the first piece discarded), and the
  left fold of the evaluator over a token list, a failure ending it.
\<close>

fun evaluate_tokens :: "jsval \<Rightarrow> jsstring list \<Rightarrow> ErrorMessage + jsval" where
  "evaluate_tokens v [] = Inr v"
| "evaluate_tokens v (token # tokens) =
     (case getValue v token of
        Inl e \<Rightarrow> Inl e
      | Inr v' \<Rightarrow> evaluate_tokens v' tokens)"

definition tokens_root_to_leaf :: "jsstring \<Rightarrow> jsstring list" where
  "tokens_root_to_leaf p = tl (String_split p TOKENS_SEPARATOR)"

text \<open>The document \<open>{"a":{"b":[1,2,3]}}\<close> of the specification's examples, parsed.\<close>

definition example_document :: jsval where
  "example_document = JObj [(js ''a'', JObj [(js ''b'', JArr [JNum 1, JNum 2, JNum 3])])]"

text \<open>
  The specification's ``parseable as a base-10 integer'': an optional sign and one or
  more decimal digits.
\<close>

definition base10_integer :: "jsstring \<Rightarrow> bool" where
  "base10_integer s =
     (case s of
        [] \<Rightarrow> False
      | c # r \<Rightarrow> if c = code_unit CHR ''+'' \<or> c = code_unit CHR ''-''
                then r \<noteq> [] \<and> list_all DecimalDigit r
                else list_all DecimalDigit s)"

text \<open>
  The canonical decimal string of an array index: what \<open>String(i)\<close> is for a
  non-negative integer, the name of the \<open>i\<close>-th element of an array.
\<close>

definition digit_char :: "nat \<Rightarrow> jschar" where
  "digit_char d = js ''0123456789'' ! d"

function decimal_string :: "nat \<Rightarrow> jsstring" where
  "decimal_string n =
     (if n < 10 then [digit_char n]
      else decimal_string (n div 10) @ [digit_char (n mod 10)])"
  by pat_completeness auto
termination
  by (relation "measure id") auto

declare decimal_string.simps [simp del]

text \<open>The first characters of the names of the built-in properties.\<close>

definition identifier_start :: "jschar \<Rightarrow> bool" where
  "identifier_start c \<longleftrightarrow> c \<in> set (js ''_abcdefghijklmnopqrstuvwxyz'')"

section \<open>Code units of ASCII characters\<close>

text \<open>
  Comparisons between the code units of literals are done on the characters: the
  conversion is injective and stays below 256.
\<close>

lemma unat_code_unit: "unat (code_unit c) = of_char c"
proof -
  have "code_unit c = of_nat (of_char c)"
    by (simp add: code_unit_def of_nat_of_char)
  moreover have "(of_char c :: nat) < 2 ^ 16"
    by (rule less_trans [OF nat_of_char_less_256]) simp
  ultimately show ?thesis
    by (simp add: unat_of_nat)
qed

lemma code_unit_eq_iff: "code_unit c = code_unit d \<longleftrightarrow> c = d"
proof
  assume "code_unit c = code_unit d"
  then have "unat (code_unit c) = unat (code_unit d)" by simp
  then show "c = d" by (simp add: unat_code_unit)
qed simp

lemma code_unit_in_js: "code_unit c \<in> set (js s) \<longleftrightarrow> c \<in> set s"
  by (auto simp: js_def code_unit_eq_iff)

lemma js_eq_iff: "js s = js t \<longleftrightarrow> s = t"
  unfolding js_def by (rule inj_map_eq_map) (simp add: inj_on_def code_unit_eq_iff)

lemma of_char_eq_numeral: "of_char d = (n::nat) \<Longrightarrow> (of_char c = n) = (c = d)"
  by auto

lemma StrWhiteSpaceChar_code_unit:
  "StrWhiteSpaceChar (code_unit c) \<longleftrightarrow>
     c \<in> set [CHR 0x09, CHR 0x0B, CHR 0x0C, CHR 0x20, CHR 0xA0, CHR 0x0A, CHR 0x0D]"
proof -
  have small: "unat (code_unit c) < 256"
    by (simp add: unat_code_unit)
  have "StrWhiteSpaceChar (code_unit c) \<longleftrightarrow>
      unat (code_unit c) \<in> {0x09, 0x0B, 0x0C, 0x20, 0xA0, 0x0A, 0x0D}"
    unfolding StrWhiteSpaceChar_def using small
    by (auto simp: word_unat_eq_iff)
  also have "\<dots> \<longleftrightarrow>
      c \<in> set [CHR 0x09, CHR 0x0B, CHR 0x0C, CHR 0x20, CHR 0xA0, CHR 0x0A, CHR 0x0D]"
  proof -
    have k: "((of_char c :: nat) = 0x09) = (c = CHR 0x09)"
      "((of_char c :: nat) = 0x0B) = (c = CHR 0x0B)"
      "((of_char c :: nat) = 0x0C) = (c = CHR 0x0C)"
      "((of_char c :: nat) = 0x20) = (c = CHR 0x20)"
      "((of_char c :: nat) = 0xA0) = (c = CHR 0xA0)"
      "((of_char c :: nat) = 0x0A) = (c = CHR 0x0A)"
      "((of_char c :: nat) = 0x0D) = (c = CHR 0x0D)"
      by (rule of_char_eq_numeral, simp)+
    show ?thesis
      by (simp add: unat_code_unit k)
  qed
  finally show ?thesis .
qed

lemmas char_eval = code_unit_eq_iff code_unit_in_js js_eq_iff StrWhiteSpaceChar_code_unit
  unat_code_unit

section \<open>Facts about the string methods\<close>

lemma replace_from_Nil: "replace_from pattern replacement [] = []"
  by (subst replace_from.simps) simp

lemma replace_from_one:
  "replace_from [a] replacement (x # s) =
     (if x = a then replacement @ replace_from [a] replacement s
      else x # replace_from [a] replacement s)"
  by (subst replace_from.simps) simp

lemma replace_from_two_single: "replace_from [a, b] replacement [x] = [x]"
  by (subst replace_from.simps) (simp add: replace_from_Nil)

lemma replace_from_two:
  "replace_from [a, b] replacement (x # y # s) =
     (if x = a \<and> y = b then replacement @ replace_from [a, b] replacement s
      else x # replace_from [a, b] replacement (y # s))"
  by (subst replace_from.simps) simp

lemma replace_from_two_skip:
  "x \<noteq> a \<Longrightarrow> replace_from [a, b] replacement (x # s) = x # replace_from [a, b] replacement s"
  by (cases s) (simp_all add: replace_from_two replace_from_two_single replace_from_Nil)

lemma split_from_Nil: "split_from sep piece [] = [piece]"
  by (subst split_from.simps) simp

lemma split_from_one:
  "split_from [a] piece (x # s) =
     (if x = a then piece # split_from [a] [] s else split_from [a] (piece @ [x]) s)"
  by (subst split_from.simps) simp

lemma unescapeReferenceToken_eq:
  "unescapeReferenceToken raw =
     replace_from (js ''~0'') (js ''~'') (replace_from (js ''~1'') (js ''/'') raw)"
  by (simp add: unescapeReferenceToken_def SPECIAL_CHARACTERS_def String_replace_global_def js_def)

section \<open>The pointer pattern\<close>

lemma never_matches_not_nullable: "never_matches r \<Longrightarrow> \<not> nullable r"
  by (induction r) auto

lemma never_matches_deriv: "never_matches r \<Longrightarrow> never_matches (deriv x r)"
  by (induction r) (auto simp: never_matches_not_nullable)

lemma never_matches_prefix: "never_matches r \<Longrightarrow> \<not> matches_prefix r s"
  by (induction s arbitrary: r) (auto simp: never_matches_not_nullable never_matches_deriv)

text \<open>The pattern has no anchor: it matches at an index exactly when a \<open>/\<close> stands there.\<close>

lemma pointer_regexp_prefix:
  "matches_prefix NON_EMPTY_POINTER_REGEXP s \<longleftrightarrow> (\<exists>r. s = code_unit CHR ''/'' # r)"
proof (cases s)
  case Nil
  then show ?thesis by (simp add: NON_EMPTY_POINTER_REGEXP_def RPlus_def)
next
  case (Cons x r)
  show ?thesis
  proof (cases "x = code_unit CHR ''/''")
    case True
    then show ?thesis
      using Cons by (cases r) (simp_all add: NON_EMPTY_POINTER_REGEXP_def RPlus_def)
  next
    case False
    have "never_matches (deriv x NON_EMPTY_POINTER_REGEXP)"
      using False by (simp add: NON_EMPTY_POINTER_REGEXP_def RPlus_def)
    then have "\<not> matches_prefix (deriv x NON_EMPTY_POINTER_REGEXP) r"
      by (rule never_matches_prefix)
    moreover have "\<not> nullable NON_EMPTY_POINTER_REGEXP"
      by (simp add: NON_EMPTY_POINTER_REGEXP_def RPlus_def)
    ultimately show ?thesis
      using Cons False by simp
  qed
qed

lemma pointer_regexp_test:
  "RegExp_test NON_EMPTY_POINTER_REGEXP s \<longleftrightarrow> code_unit CHR ''/'' \<in> set s"
proof (induction s)
  case Nil
  show ?case by (simp add: NON_EMPTY_POINTER_REGEXP_def RPlus_def)
next
  case (Cons x s)
  have "matches_prefix NON_EMPTY_POINTER_REGEXP (x # s) \<longleftrightarrow> x = code_unit CHR ''/''"
    by (simp only: pointer_regexp_prefix) auto
  with Cons show ?case
    by (simp del: matches_prefix.simps) blast
qed

lemma isValidJSONPointer_string:
  "isValidJSONPointer (Value (JStr s)) \<longleftrightarrow> s = [] \<or> code_unit CHR ''/'' \<in> set s"
  by (simp add: isValidJSONPointer_def pointer_regexp_test)

lemma isValidJSONPointer_StringObject:
  "isValidJSONPointer (StringObject s) \<longleftrightarrow> code_unit CHR ''/'' \<in> set s"
  by (simp add: isValidJSONPointer_def pointer_regexp_test)

section \<open>Facts about the resolution loop\<close>

lemma isUndefined_iff: "isUndefined v \<longleftrightarrow> v = JUndefined"
  by (cases v) (simp_all add: isUndefined_def)

lemma isString_iff: "isString a \<longleftrightarrow> string_of a \<noteq> None"
proof (cases a)
  case (Value v)
  then show ?thesis by (cases v) simp_all
next
  case (StringObject s)
  then show ?thesis by simp
qed

lemma getValue_undefined: "getValue JUndefined token = Inr JUndefined"
  by (simp add: getValue_def isObject_def)

lemma evaluate_tokens_undefined: "evaluate_tokens JUndefined tokens = Inr JUndefined"
  by (induction tokens) (simp_all add: getValue_undefined)

lemma evaluate_tokens_append:
  "evaluate_tokens v (xs @ ys) =
     (case evaluate_tokens v xs of Inl e \<Rightarrow> Inl e | Inr v' \<Rightarrow> evaluate_tokens v' ys)"
  by (induction xs arbitrary: v) (simp_all split: sum.splits)

lemma resolve_loop_Nil: "resolve_loop v [] = Inr v"
  by (subst resolve_loop.simps) simp

lemma resolve_loop_undefined: "resolve_loop JUndefined tokensList = Inr JUndefined"
  by (subst resolve_loop.simps) (simp add: isUndefined_iff)

lemma resolve_loop_snoc:
  "resolve_loop v (tokensList @ [token]) =
     (if v = JUndefined then Inr v
      else (case getValue v token of
              Inl e \<Rightarrow> Inl e
            | Inr v' \<Rightarrow> resolve_loop v' tokensList))"
  by (subst resolve_loop.simps) (simp add: isUndefined_iff cong: sum.case_cong)

lemma resolve_loop_rev: "resolve_loop v (rev tokens) = evaluate_tokens v tokens"
proof (induction tokens arbitrary: v)
  case Nil
  show ?case by (simp add: resolve_loop_Nil)
next
  case (Cons token tokens)
  show ?case
  proof (cases "v = JUndefined")
    case True
    then show ?thesis
      by (simp add: resolve_loop_undefined getValue_undefined evaluate_tokens_undefined)
  next
    case False
    then show ?thesis
      by (simp add: resolve_loop_snoc Cons.IH split: sum.splits)
  qed
qed

lemma parsePointer_tokens: "parsePointer p = rev (tokens_root_to_leaf p)"
  by (simp add: parsePointer_def tokens_root_to_leaf_def butlast_rev)

lemma getPointedValue_resolved:
  assumes "string_of target = Some documentText" and "JSON_parse documentText = Some document"
    and "isValidJSONPointer pointer" and "string_of pointer = Some p"
  shows "getPointedValue JSON_parse target pointer =
           evaluate_tokens document (tokens_root_to_leaf p)"
  using assms
  by (simp add: getPointedValue_def isString_iff parsePointer_tokens resolve_loop_rev)

lemma getValue_errors:
  "getValue v token = Inl e \<Longrightarrow>
   e = HYPHEN_IS_NOT_SUPPORTED_IN_ARRAY_CONTEXT \<or> e = NON_NUMBER_TOKEN_IN_ARRAY_CONTEXT \<or>
   e = TOKEN_WITH_LEADING_ZERO_IN_ARRAY_CONTEXT"
  by (auto simp: getValue_def Let_def split: if_splits)

lemma evaluate_tokens_errors:
  "evaluate_tokens v tokens = Inl e \<Longrightarrow>
   e = HYPHEN_IS_NOT_SUPPORTED_IN_ARRAY_CONTEXT \<or> e = NON_NUMBER_TOKEN_IN_ARRAY_CONTEXT \<or>
   e = TOKEN_WITH_LEADING_ZERO_IN_ARRAY_CONTEXT"
proof (induction tokens arbitrary: v)
  case Nil
  then show ?case by simp
next
  case (Cons token tokens)
  show ?case
  proof (cases "getValue v token")
    case (Inl e')
    with Cons.prems have "getValue v token = Inl e" by simp
    then show ?thesis by (rule getValue_errors)
  next
    case (Inr v')
    with Cons.prems have "evaluate_tokens v' tokens = Inl e" by simp
    then show ?thesis by (rule Cons.IH)
  qed
qed

lemma resolve_loop_errors:
  "resolve_loop v tokensList = Inl e \<Longrightarrow>
   e = HYPHEN_IS_NOT_SUPPORTED_IN_ARRAY_CONTEXT \<or> e = NON_NUMBER_TOKEN_IN_ARRAY_CONTEXT \<or>
   e = TOKEN_WITH_LEADING_ZERO_IN_ARRAY_CONTEXT"
proof -
  assume "resolve_loop v tokensList = Inl e"
  moreover have "resolve_loop v tokensList = evaluate_tokens v (rev tokensList)"
    using resolve_loop_rev [of v "rev tokensList"] by simp
  ultimately have "evaluate_tokens v (rev tokensList) = Inl e"
    by simp
  then show ?thesis
    by (rule evaluate_tokens_errors)
qed

lemma split_examples:
  "String_split (js ''/a/b/1'') TOKENS_SEPARATOR = [[], js ''a'', js ''b'', js ''1'']"
  "String_split (js ''/b/-'') TOKENS_SEPARATOR = [[], js ''b'', js ''-'']"
  by (simp_all add: String_split_def TOKENS_SEPARATOR_def js_def code_unit_def
      split_from_one split_from_Nil)

lemmas string_eval = js_def char_eval unescapeReferenceToken_eq replace_from_Nil
  replace_from_one replace_from_two replace_from_two_single split_from_Nil split_from_one
  String_split_def TOKENS_SEPARATOR_def

lemmas number_eval = isNumber_def Number_isNaN_def StringNumericLiteral_def
  StrNumericLiteral_def StrDecimalLiteral_def StrUnsignedDecimalLiteral_def
  NonDecimalIntegerLiteral_def ExponentPart_opt_def SignedInteger_def DecimalDigits_def
  DecimalDigit_def BinaryDigit_def OctalDigit_def HexDigit_def

lemmas get_eval = getValue_def Let_def isObject_def array_index_def digit_value_def
  Object_prototype_get_def Array_prototype_get_def Object_prototype_methods_def
  Array_prototype_methods_def

lemma tokens_examples:
  "tokens_root_to_leaf (js ''/a/b/1'') = [js ''a'', js ''b'', js ''1'']"
  "tokens_root_to_leaf (js ''/b/-'') = [js ''b'', js ''-'']"
  by (simp_all add: tokens_root_to_leaf_def split_examples)

lemma isNumber_1: "isNumber (js ''1'')"
  by (simp add: isNumber_def Number_isNaN_def StringNumericLiteral_def StrNumericLiteral_def
      StrDecimalLiteral_def StrUnsignedDecimalLiteral_def StrWhiteSpaceChar_def DecimalDigit_def
      js_def code_unit_def)

lemma unescape_plain [simp]:
  "unescapeReferenceToken (js ''a'') = js ''a''"
  "unescapeReferenceToken (js ''b'') = js ''b''"
  "unescapeReferenceToken (js ''1'') = js ''1''"
  "unescapeReferenceToken (js ''-'') = js ''-''"
  by (simp_all add: unescapeReferenceToken_eq js_def code_unit_def replace_from_two_single)

lemma example_resolution:
  "evaluate_tokens example_document [js ''a'', js ''b'', js ''1''] = Inr (JNum 2)"
proof -
  have a: "getValue example_document (js ''a'') = Inr (JObj [(js ''b'', JArr [JNum 1, JNum 2, JNum 3])])"
    by (simp add: example_document_def getValue_def isObject_def)
  have b: "getValue (JObj [(js ''b'', JArr [JNum 1, JNum 2, JNum 3])]) (js ''b'') = Inr (JArr [JNum 1, JNum 2, JNum 3])"
    by (simp add: getValue_def isObject_def)
  have i: "array_index (js ''1'') = Some 1"
    by (simp add: array_index_def DecimalDigits_def DecimalDigit_def digit_value_def js_def code_unit_def)
  have c: "getValue (JArr [JNum 1, JNum 2, JNum 3]) (js ''1'') = Inr (JNum 2)"
    using isNumber_1 i by (simp add: getValue_def) (simp add: js_def code_unit_def)
  show ?thesis by (simp add: a b c)
qed

section \<open>Facts about numeric tokens\<close>

lemma DecimalDigit_not_space: "DecimalDigit c \<Longrightarrow> \<not> StrWhiteSpaceChar c"
  by (auto simp: DecimalDigit_def js_def char_eval)

lemma digits_unsigned_literal:
  assumes "ds \<noteq> []" and "list_all DecimalDigit ds"
  shows "StrUnsignedDecimalLiteral ds"
proof -
  have whole: "takeWhile DecimalDigit ds = ds" "dropWhile DecimalDigit ds = []"
    using assms(2) by (simp_all add: list_all_iff)
  show ?thesis
    by (simp add: StrUnsignedDecimalLiteral_def Let_def whole assms(1))
qed

lemma trim_unchanged:
  assumes "s \<noteq> []" and "\<not> StrWhiteSpaceChar (hd s)" and "\<not> StrWhiteSpaceChar (last s)"
  shows "rev (dropWhile StrWhiteSpaceChar (rev (dropWhile StrWhiteSpaceChar s))) = s"
proof -
  have "dropWhile StrWhiteSpaceChar s = s"
    using assms(1,2) by (cases s) simp_all
  moreover have "dropWhile StrWhiteSpaceChar (rev s) = rev s"
    using assms(1,3) by (cases "rev s") (simp_all add: last_rev [symmetric] hd_rev)
  ultimately show ?thesis by simp
qed

lemma base10_integer_numeric:
  assumes "base10_integer s"
  shows "\<not> Number_isNaN s"
proof -
  from assms obtain c r where s: "s = c # r"
    by (cases s) (simp_all add: base10_integer_def)
  show ?thesis
  proof (cases "c = code_unit CHR ''+'' \<or> c = code_unit CHR ''-''")
    case True
    with assms s have r: "r \<noteq> []" "list_all DecimalDigit r"
      by (simp_all add: base10_integer_def)
    then have "DecimalDigit (last r)"
      by (simp add: list_all_iff)
    then have "\<not> StrWhiteSpaceChar (last s)"
      using r(1) s by (simp add: DecimalDigit_not_space)
    moreover have "\<not> StrWhiteSpaceChar (hd s)"
      using True s by (auto simp: char_eval)
    ultimately have "rev (dropWhile StrWhiteSpaceChar (rev (dropWhile StrWhiteSpaceChar s))) = s"
      using s by (intro trim_unchanged) simp_all
    moreover have "StrDecimalLiteral s"
      using True s r by (auto simp: StrDecimalLiteral_def digits_unsigned_literal js_def)
    ultimately show ?thesis
      by (simp add: Number_isNaN_def StringNumericLiteral_def StrNumericLiteral_def)
  next
    case False
    with assms s have d: "list_all DecimalDigit s"
      by (simp add: base10_integer_def)
    then have "DecimalDigit (hd s)" "DecimalDigit (last s)"
      using s by (simp_all add: list_all_iff)
    then have "rev (dropWhile StrWhiteSpaceChar (rev (dropWhile StrWhiteSpaceChar s))) = s"
      using s by (intro trim_unchanged) (simp_all add: DecimalDigit_not_space)
    moreover have "StrUnsignedDecimalLiteral s"
      using d s by (intro digits_unsigned_literal) simp_all
    then have "StrDecimalLiteral s"
      using False s by (simp add: StrDecimalLiteral_def js_def)
    ultimately show ?thesis
      by (simp add: Number_isNaN_def StringNumericLiteral_def StrNumericLiteral_def)
  qed
qed

lemma isNumber_examples:
  "isNumber (js ''1.5'')" "isNumber (js '' 2'')" "isNumber (js ''1e2'')" "isNumber (js ''-1'')"
  "isNumber (js ''0'')" "isNumber (js ''01'')" "isNumber (js ''1'')" "isNumber (js ''10'')"
  "\<not> isNumber (js ''x'')" "\<not> isNumber (js ''-'')"
  by (simp_all add: number_eval string_eval)

lemma isArray_cases: "isArray v \<Longrightarrow> (\<exists>xs. v = JArr xs) \<or> v = JArrayPrototype"
  by (cases v) simp_all

lemma trim_keeps_first:
  assumes "\<not> StrWhiteSpaceChar c"
  shows "\<exists>u. rev (dropWhile StrWhiteSpaceChar (rev (dropWhile StrWhiteSpaceChar (c # r)))) = c # u"
proof -
  have "dropWhile StrWhiteSpaceChar (c # r) = c # r"
    using assms by simp
  moreover have "\<exists>zs. dropWhile StrWhiteSpaceChar (rev r @ [c]) = zs @ [c]"
    using assms by (simp add: dropWhile_append)
  then obtain zs where "dropWhile StrWhiteSpaceChar (rev r @ [c]) = zs @ [c]"
    by blast
  ultimately have
    "rev (dropWhile StrWhiteSpaceChar (rev (dropWhile StrWhiteSpaceChar (c # r)))) = c # rev zs"
    by simp
  then show ?thesis ..
qed

lemma StrNumericLiteral_first:
  assumes "StrNumericLiteral (c # u)"
  shows "DecimalDigit c \<or> c \<in> set (js ''+-.I'')"
proof (cases "DecimalDigit c \<or> c \<in> set (js ''+-'')")
  case True
  then show ?thesis by (auto simp: js_def)
next
  case False
  then have nd: "\<not> DecimalDigit c" and ns: "c \<notin> set (js ''+-'')"
    by simp_all
  have "c \<noteq> code_unit CHR ''0''"
    using nd by (auto simp: DecimalDigit_def js_def)
  then have "\<not> NonDecimalIntegerLiteral (c # u)"
    by (simp add: NonDecimalIntegerLiteral_def split: list.splits)
  with assms have "StrDecimalLiteral (c # u)"
    by (simp add: StrNumericLiteral_def)
  with ns have "StrUnsignedDecimalLiteral (c # u)"
    by (simp add: StrDecimalLiteral_def)
  then have "c # u = js ''Infinity'' \<or> c = code_unit CHR ''.''"
    using nd by (auto simp: StrUnsignedDecimalLiteral_def Let_def split: if_splits)
  then show ?thesis
    by (auto simp: js_def)
qed

lemma numeric_first_char:
  assumes "isNumber (c # r)" and "\<not> StrWhiteSpaceChar c"
  shows "DecimalDigit c \<or> c \<in> set (js ''+-.I'')"
proof -
  from trim_keeps_first [OF assms(2)] obtain u where
    u: "rev (dropWhile StrWhiteSpaceChar (rev (dropWhile StrWhiteSpaceChar (c # r)))) = c # u"
    by blast
  from assms(1) have "StringNumericLiteral (c # r)"
    by (simp add: isNumber_def Number_isNaN_def)
  then have "c # u = [] \<or> StrNumericLiteral (c # u)"
    unfolding StringNumericLiteral_def Let_def u .
  then have "StrNumericLiteral (c # u)"
    by simp
  then show ?thesis
    by (rule StrNumericLiteral_first)
qed

lemma identifier_start_not_numeric:
  "identifier_start c \<Longrightarrow> \<not> isNumber (c # r)"
proof
  assume i: "identifier_start c" and n: "isNumber (c # r)"
  have letters: "\<forall>a \<in> set ''_abcdefghijklmnopqrstuvwxyz''.
      \<not> StrWhiteSpaceChar (code_unit a) \<and> \<not> DecimalDigit (code_unit a) \<and>
      code_unit a \<notin> set (js ''+-.I'')"
    by (simp add: DecimalDigit_def char_eval)
  from i have "c \<in> code_unit ` set ''_abcdefghijklmnopqrstuvwxyz''"
    unfolding identifier_start_def js_def set_map .
  then obtain a where a: "c = code_unit a" "a \<in> set ''_abcdefghijklmnopqrstuvwxyz''"
    by (rule imageE)
  with letters have c: "\<not> StrWhiteSpaceChar c" "\<not> DecimalDigit c" "c \<notin> set (js ''+-.I'')"
    by blast+
  from n c(1) have "DecimalDigit c \<or> c \<in> set (js ''+-.I'')"
    by (rule numeric_first_char)
  with c show False
    by blast
qed

lemma builtin_names_start:
  "\<forall>m \<in> set ([''__proto__'', ''constructor'', ''length''] @ Object_prototype_methods
           @ Array_prototype_methods). \<exists>c r. js m = c # r \<and> identifier_start c"
  by (simp add: Object_prototype_methods_def Array_prototype_methods_def identifier_start_def
      js_def char_eval)

lemma isNumber_not_builtin_name:
  assumes "isNumber key"
  shows "Array_prototype_get receiver key = JUndefined"
proof -
  have k: "\<forall>m \<in> set ([''__proto__'', ''constructor'', ''length''] @ Object_prototype_methods
           @ Array_prototype_methods). js m \<noteq> key"
    using builtin_names_start identifier_start_not_numeric assms by metis
  then have "find (\<lambda>m. js m = key) Object_prototype_methods = None"
    "find (\<lambda>m. js m = key) Array_prototype_methods = None"
    by (auto simp: find_None_iff)
  with k show ?thesis
    by (auto simp: Array_prototype_get_def Object_prototype_get_def)
qed

section \<open>Array indices and their decimal strings\<close>

lemma DecimalDigit_value:
  assumes "DecimalDigit c"
  shows "digit_value c < 10" and "digit_char (digit_value c) = c"
    and "digit_value c = 0 \<longleftrightarrow> c = code_unit CHR ''0''"
proof -
  have digits: "\<forall>a \<in> set ''0123456789''.
      digit_value (code_unit a) < 10 \<and> digit_char (digit_value (code_unit a)) = code_unit a \<and>
      (digit_value (code_unit a) = 0 \<longleftrightarrow> a = CHR ''0'')"
    by (simp add: digit_value_def digit_char_def js_def char_eval)
  from assms have "c \<in> code_unit ` set ''0123456789''"
    unfolding DecimalDigit_def js_def set_map .
  then obtain a where a: "c = code_unit a" "a \<in> set ''0123456789''"
    by (rule imageE)
  with digits show "digit_value c < 10" and "digit_char (digit_value c) = c"
    and "digit_value c = 0 \<longleftrightarrow> c = code_unit CHR ''0''"
    by (auto simp: code_unit_eq_iff)
qed

lemma decimal_string_digits:
  assumes "key \<noteq> []" and "list_all DecimalDigit key" and "hd key \<noteq> code_unit CHR ''0''"
  shows "0 < foldl (\<lambda>n c. 10 * n + digit_value c) 0 key \<and>
         decimal_string (foldl (\<lambda>n c. 10 * n + digit_value c) 0 key) = key"
  using assms
proof (induction key rule: rev_nonempty_induct)
  case (single c)
  then have d: "DecimalDigit c" and z: "c \<noteq> code_unit CHR ''0''"
    by simp_all
  with DecimalDigit_value [OF d] show ?case
    by (subst decimal_string.simps) simp
next
  case (snoc c s)
  let ?v = "foldl (\<lambda>n c. 10 * n + digit_value c) 0 s"
  from snoc.prems snoc.hyps have "list_all DecimalDigit s" "hd s \<noteq> code_unit CHR ''0''"
    and d: "DecimalDigit c"
    by simp_all
  with snoc.IH have v: "0 < ?v" "decimal_string ?v = s"
    by simp_all
  from DecimalDigit_value [OF d] have c: "digit_value c < 10" "digit_char (digit_value c) = c"
    by simp_all
  have "decimal_string (10 * ?v + digit_value c) = decimal_string ?v @ [digit_char (digit_value c)]"
    using v(1) c(1) by (subst decimal_string.simps) simp
  with v c show ?case
    by simp
qed

lemma array_index_decimal_string:
  assumes "array_index key = Some i"
  shows "key = decimal_string i"
proof -
  from assms have d: "key \<noteq> []" "list_all DecimalDigit key"
    and z: "key = js ''0'' \<or> hd key \<noteq> code_unit CHR ''0''"
    and i: "i = foldl (\<lambda>n c. 10 * n + digit_value c) 0 key"
    by (auto simp: array_index_def DecimalDigits_def split: if_splits)
  show ?thesis
  proof (cases "key = js ''0''")
    case True
    with i have "i = 0"
      by (simp add: js_def digit_value_def char_eval)
    moreover have "decimal_string 0 = js ''0''"
      by (subst decimal_string.simps) (simp add: digit_char_def js_def)
    ultimately show ?thesis
      using True by simp
  next
    case False
    with z have "hd key \<noteq> code_unit CHR ''0''"
      by simp
    with d i show ?thesis
      using decimal_string_digits [of key] by simp
  qed
qed

lemma decimal_string_digit: "n < 10 \<Longrightarrow> decimal_string n = [digit_char n]"
  by (subst decimal_string.simps) simp

section \<open>Numeric tokens that name no element\<close>

lemma getValue_array_numeric:
  assumes "isArray v" and "unescapeReferenceToken rawToken = token"
    and "isNumber token"
    and "\<not> (length token > 1 \<and> token ! 0 = code_unit CHR ''0'')"
    and "\<forall>xs i. v = JArr xs \<longrightarrow> array_index token = Some i \<longrightarrow> length xs \<le> i"
  shows "getValue v rawToken = Inr JUndefined"
proof -
  from assms(3) isNumber_examples(10) have hyphen: "js ''-'' \<noteq> token"
    by auto
  from assms(3) builtin_names_start identifier_start_not_numeric
  have len: "token \<noteq> js ''length''"
    by (metis append_Cons list.set_intros(1,2))
  have proto: "Array_prototype_get v token = JUndefined"
    using assms(3) by (rule isNumber_not_builtin_name)
  have "Get v token = JUndefined"
  proof -
    from assms(1) consider xs where "v = JArr xs" | "v = JArrayPrototype"
      using isArray_cases by blast
    then show ?thesis
    proof cases
      case 1
      with assms(5) len proto show ?thesis
        by (auto split: option.splits)
    next
      case 2
      with proto show ?thesis by simp
    qed
  qed
  with assms(1-4) hyphen show ?thesis
    by (simp add: getValue_def Let_def eq_commute [of "code_unit CHR ''0''"])
qed

section \<open>Non-numeric tokens in array context\<close>

text \<open>
  C1, as stated, fails: in array context the token \<open>1.5\<close>, which is not \<open>-\<close> and not
  a base-10 integer, raises no \<open>NON_NUMBER_TOKEN_IN_ARRAY_CONTEXT\<close>; it converts to a
  number, passes the check and resolves to \<open>undefined\<close>.
\<close>

theorem C1_decimal_fraction_counterexample:
  "isArray (JArr [JNum 1, JNum 2, JNum 3]) \<and>
   unescapeReferenceToken (js ''1.5'') = js ''1.5'' \<and>
   js ''1.5'' \<noteq> js ''-'' \<and>
   \<not> base10_integer (js ''1.5'') \<and>
   getValue (JArr [JNum 1, JNum 2, JNum 3]) (js ''1.5'') = Inr JUndefined"
  by (simp add: base10_integer_def get_eval number_eval string_eval)

text \<open>
  C1, amended: for every array context and every unescaped token other than \<open>-\<close>,
  the evaluator fails with \<open>NON_NUMBER_TOKEN_IN_ARRAY_CONTEXT\<close> if and only if
  \<open>Number(token)\<close> is \<open>NaN\<close>, that is, the token is not a \<open>StringNumericLiteral\<close>.
  No base-10 integer raises it; neither do \<open>1.5\<close>, \<open> 2\<close> and \<open>1e2\<close>, which
  convert to numbers; \<open>x\<close> raises it.
\<close>

theorem C1_non_number_iff_not_numeric:
  assumes "isArray context" and "unescapeReferenceToken rawToken = token"
    and "token \<noteq> js ''-''"
  shows "(getValue context rawToken = Inl NON_NUMBER_TOKEN_IN_ARRAY_CONTEXT \<longleftrightarrow>
            Number_isNaN token) \<and>
         (base10_integer token \<longrightarrow>
            getValue context rawToken \<noteq> Inl NON_NUMBER_TOKEN_IN_ARRAY_CONTEXT) \<and>
         (token = js ''1.5'' \<or> token = js '' 2'' \<or> token = js ''1e2'' \<longrightarrow>
            getValue context rawToken \<noteq> Inl NON_NUMBER_TOKEN_IN_ARRAY_CONTEXT) \<and>
         (token = js ''x'' \<longrightarrow>
            getValue context rawToken = Inl NON_NUMBER_TOKEN_IN_ARRAY_CONTEXT)"
proof -
  have iff: "getValue context rawToken = Inl NON_NUMBER_TOKEN_IN_ARRAY_CONTEXT \<longleftrightarrow>
      Number_isNaN token"
    using assms by (auto simp: getValue_def Let_def isNumber_def)
  moreover have "base10_integer token \<longrightarrow> \<not> Number_isNaN token"
    by (simp add: base10_integer_numeric)
  moreover have "\<not> Number_isNaN (js ''1.5'')" "\<not> Number_isNaN (js '' 2'')"
    "\<not> Number_isNaN (js ''1e2'')" "Number_isNaN (js ''x'')"
    using isNumber_examples by (simp_all add: isNumber_def)
  ultimately show ?thesis
    by blast
qed

theorem C1_non_number_iff_not_numeric_witness:
  "getValue (JArr [JNum 1, JNum 2, JNum 3]) (js ''1e2'') \<noteq> Inl NON_NUMBER_TOKEN_IN_ARRAY_CONTEXT \<and>
   getValue (JArr [JNum 1, JNum 2, JNum 3]) (js ''10'') \<noteq> Inl NON_NUMBER_TOKEN_IN_ARRAY_CONTEXT \<and>
   getValue (JArr [JNum 1, JNum 2, JNum 3]) (js ''x'') = Inl NON_NUMBER_TOKEN_IN_ARRAY_CONTEXT"
proof -
  have a: "isArray (JArr [JNum 1, JNum 2, JNum 3])" by simp
  have u: "unescapeReferenceToken (js ''1e2'') = js ''1e2''"
    "unescapeReferenceToken (js ''10'') = js ''10''"
    "unescapeReferenceToken (js ''x'') = js ''x''"
    by (simp_all add: string_eval)
  have n: "js ''1e2'' \<noteq> js ''-''" "js ''10'' \<noteq> js ''-''" "js ''x'' \<noteq> js ''-''"
    by (simp_all add: string_eval)
  have b: "base10_integer (js ''10'')"
    by (simp add: base10_integer_def number_eval string_eval)
  from C1_non_number_iff_not_numeric [OF a u(1) n(1)]
    C1_non_number_iff_not_numeric [OF a u(2) n(2)]
    C1_non_number_iff_not_numeric [OF a u(3) n(3)] b
  show ?thesis by blast
qed

section \<open>The validator accepts a pointer without a leading slash\<close>

text \<open>
  C2 fails on the code, against the code's own comment that the first piece of a valid
  pointer is always empty: the pattern has no anchors, so the non-empty string \<open>a/b\<close>,
  which does not start with \<open>/\<close>, is accepted, its first piece \<open>a\<close> is dropped, and
  \<open>get\<close> resolves it like \<open>/b\<close>.
\<close>

theorem C2_unanchored_pattern_accepts:
  "js ''a/b'' \<noteq> [] \<and> hd (js ''a/b'') \<noteq> code_unit CHR ''/'' \<and>
   isValidJSONPointer (Value (JStr (js ''a/b''))) \<and>
   parsePointer (js ''a/b'') = [js ''b''] \<and>
   getPointedValue (\<lambda>documentText. Some (JObj [(js ''b'', JNum 1)]))
     (Value (JStr documentText)) (Value (JStr (js ''a/b''))) = Inr (JNum 1)"
proof -
  have v: "isValidJSONPointer (Value (JStr (js ''a/b'')))"
    by (simp add: isValidJSONPointer_string js_def)
  have p: "parsePointer (js ''a/b'') = [js ''b'']"
    by (simp add: parsePointer_def string_eval)
  have g: "getValue (JObj [(js ''b'', JNum 1)]) (js ''b'') = Inr (JNum 1)"
    by (simp add: get_eval string_eval)
  have "resolve_loop (JObj [(js ''b'', JNum 1)]) ([] @ [js ''b'']) = Inr (JNum 1)"
    by (simp only: resolve_loop_snoc g) (simp add: resolve_loop_Nil)
  then have "getPointedValue (\<lambda>documentText. Some (JObj [(js ''b'', JNum 1)]))
     (Value (JStr documentText)) (Value (JStr (js ''a/b''))) = Inr (JNum 1)"
    using v p by (simp add: getPointedValue_def)
  with v p show ?thesis
    by (simp add: js_def char_eval)
qed

section \<open>Resolution is a fold from the root\<close>

text \<open>
  C3: for every document that is a string and parses as JSON and every valid pointer,
  \<open>get\<close> is the left fold of the evaluator over the pointer's tokens in root-to-leaf
  order, starting from the parsed document, although the internal token list is
  reversed; for the empty pointer it returns the whole parsed document; and on
  \<open>{"a":{"b":[1,2,3]}}\<close> the pointer \<open>/a/b/1\<close> is resolved through \<open>a\<close>, \<open>b\<close>
  and index 1 to the value 2.
\<close>

theorem C3_get_folds_root_to_leaf:
  assumes "string_of target = Some documentText" and "JSON_parse documentText = Some document"
    and "isValidJSONPointer pointer" and "string_of pointer = Some p"
  shows "getPointedValue JSON_parse target pointer =
           evaluate_tokens document (tokens_root_to_leaf p) \<and>
         parsePointer p = rev (tokens_root_to_leaf p) \<and>
         (p = [] \<longrightarrow> getPointedValue JSON_parse target pointer = Inr document) \<and>
         (document = example_document \<and> p = js ''/a/b/1'' \<longrightarrow>
            tokens_root_to_leaf p = [js ''a'', js ''b'', js ''1''] \<and>
            getPointedValue JSON_parse target pointer = Inr (JNum 2))"
proof -
  have get: "getPointedValue JSON_parse target pointer =
           evaluate_tokens document (tokens_root_to_leaf p)"
    using assms by (rule getPointedValue_resolved)
  moreover have "tokens_root_to_leaf [] = []"
    by (simp add: tokens_root_to_leaf_def String_split_def TOKENS_SEPARATOR_def js_def split_from_Nil)
  moreover have "evaluate_tokens example_document (tokens_root_to_leaf (js ''/a/b/1'')) = Inr (JNum 2)"
    by (simp only: tokens_examples example_resolution)
  ultimately show ?thesis
    by (auto simp: parsePointer_tokens tokens_examples)
qed

theorem C3_get_folds_root_to_leaf_witness:
  \<open>getPointedValue (\<lambda>documentText. if documentText = js ''{"a":{"b":[1,2,3]}}'' then Some example_document else None)
     (Value (JStr (js ''{"a":{"b":[1,2,3]}}''))) (Value (JStr (js ''/a/b/1''))) = Inr (JNum 2) \<and>
   getPointedValue (\<lambda>documentText. if documentText = js ''{"a":{"b":[1,2,3]}}'' then Some example_document else None)
     (Value (JStr (js ''{"a":{"b":[1,2,3]}}''))) (Value (JStr [])) = Inr example_document\<close>
proof -
  let ?documentText = \<open>js ''{"a":{"b":[1,2,3]}}''\<close>
  let ?parse = "\<lambda>documentText. if documentText = ?documentText then Some example_document else None"
  have v: "isValidJSONPointer (Value (JStr (js ''/a/b/1'')))"
    by (simp add: isValidJSONPointer_string js_def)
  have e: "isValidJSONPointer (Value (JStr []))"
    by (simp add: isValidJSONPointer_string)
  have s: "string_of (Value (JStr ?documentText)) = Some ?documentText" by simp
  have q: "?parse ?documentText = Some example_document" by simp
  have p1: "string_of (Value (JStr (js ''/a/b/1''))) = Some (js ''/a/b/1'')" by simp
  have p2: "string_of (Value (JStr [])) = Some []" by simp
  from C3_get_folds_root_to_leaf [of _ ?documentText ?parse, OF s q v p1]
  have "getPointedValue ?parse (Value (JStr ?documentText)) (Value (JStr (js ''/a/b/1'')))
          = Inr (JNum 2)"
    by blast
  moreover from C3_get_folds_root_to_leaf [of _ ?documentText ?parse, OF s q e p2]
  have "getPointedValue ?parse (Value (JStr ?documentText)) (Value (JStr []))
          = Inr example_document"
    by blast
  ultimately show ?thesis
    by (rule conjI)
qed

section \<open>Unescaping and re-escaping\<close>

lemma tilde_zero_skip: "c \<noteq> code_unit CHR ''~'' \<Longrightarrow> tilde_zero (c # s) = tilde_zero s"
  by (cases s) simp_all

lemma escapeReferenceToken_eq:
  "escapeReferenceToken token =
     replace_from (js ''/'') (js ''~1'') (replace_from (js ''~'') (js ''~0'') token)"
  by (simp add: escapeReferenceToken_def String_replace_global_def js_def)

lemma escape_slash_inverse:
  "code_unit CHR ''/'' \<notin> set s \<Longrightarrow>
   replace_from (js ''/'') (js ''~1'') (replace_from (js ''~1'') (js ''/'') s) = s"
proof (induction s rule: induct_list012)
  case 1
  show ?case by (simp add: js_def replace_from_Nil)
next
  case (2 x)
  then show ?case
    by (simp add: js_def replace_from_two_single replace_from_one replace_from_Nil)
next
  case (3 x y zs)
  then show ?case
    by (auto simp: js_def replace_from_two replace_from_one)
qed

lemma escape_tilde_inverse:
  "tilde_zero t \<Longrightarrow>
   replace_from (js ''~'') (js ''~0'') (replace_from (js ''~0'') (js ''~'') t) = t"
proof (induction t rule: induct_list012)
  case 1
  show ?case by (simp add: js_def replace_from_Nil)
next
  case (2 x)
  then show ?case
    by (simp add: js_def replace_from_two_single replace_from_one replace_from_Nil)
next
  case (3 x y zs)
  then show ?case
    by (simp add: js_def replace_from_two replace_from_one split: if_splits)
qed

lemma tilde_zero_after_slash:
  "well_escaped s \<Longrightarrow> tilde_zero (replace_from (js ''~1'') (js ''/'') s)"
proof (induction s rule: induct_list012)
  case 1
  show ?case by (simp add: js_def replace_from_Nil)
next
  case (2 x)
  then show ?case by (simp add: js_def replace_from_two_single)
next
  case (3 x y zs)
  show ?case
  proof (cases "x = code_unit CHR ''~''")
    case True
    with 3 show ?thesis
      by (auto simp: js_def replace_from_two replace_from_two_skip tilde_zero_skip code_unit_def)
  next
    case False
    with 3 show ?thesis
      by (simp add: js_def replace_from_two tilde_zero_skip)
  qed
qed

text \<open>
  C4, as stated, fails: the raw token \<open>~0~\<close> contains \<open>~0\<close>, unescapes to \<open>~~\<close>, and
  that re-escapes to \<open>~0~0\<close>.
\<close>

theorem C4_stray_tilde_counterexample:
  "String_includes (js ''~0~'') (js ''~0'') \<and>
   escapeReferenceToken (unescapeReferenceToken (js ''~0~'')) \<noteq> js ''~0~''"
  by (simp add: unescapeReferenceToken_eq escapeReferenceToken_eq js_def code_unit_def
      replace_from_two replace_from_two_single replace_from_one replace_from_Nil)

text \<open>
  C4, amended: for every raw token without \<open>/\<close> in which every \<open>~\<close> starts \<open>~0\<close> or
  \<open>~1\<close> (so also for every such token that contains \<open>~0\<close> or \<open>~1\<close>), unescaping
  (\<open>~1\<close> to \<open>/\<close>, then \<open>~0\<close> to \<open>~\<close>) and then re-escaping (\<open>~\<close> to \<open>~0\<close>, then
  \<open>/\<close> to \<open>~1\<close>) gives the raw token back.
\<close>

theorem C4_unescape_escape_roundtrip:
  "well_escaped raw \<Longrightarrow> code_unit CHR ''/'' \<notin> set raw \<Longrightarrow>
   escapeReferenceToken (unescapeReferenceToken raw) = raw"
  by (simp add: unescapeReferenceToken_eq escapeReferenceToken_eq
      escape_tilde_inverse tilde_zero_after_slash escape_slash_inverse)

theorem C4_unescape_escape_roundtrip_witness:
  "well_escaped (js ''a~1b~01'') \<and> code_unit CHR ''/'' \<notin> set (js ''a~1b~01'') \<and>
   String_includes (js ''a~1b~01'') (js ''~1'') \<and>
   unescapeReferenceToken (js ''a~1b~01'') = js ''a/b~1'' \<and>
   escapeReferenceToken (js ''a/b~1'') = js ''a~1b~01''"
proof -
  have w: "well_escaped (js ''a~1b~01'')"
    by (simp add: js_def code_unit_def)
  have n: "code_unit CHR ''/'' \<notin> set (js ''a~1b~01'')"
    by (simp add: js_def code_unit_def)
  have u: "unescapeReferenceToken (js ''a~1b~01'') = js ''a/b~1''"
    by (simp add: unescapeReferenceToken_eq js_def code_unit_def
      replace_from_two replace_from_two_single replace_from_Nil)
  have i: "String_includes (js ''a~1b~01'') (js ''~1'')"
    by (simp add: js_def code_unit_def)
  from C4_unescape_escape_roundtrip [OF w n] u w n i show ?thesis by simp
qed

section \<open>Objects answer for inherited properties\<close>

text \<open>
  C5 fails on the code, which documents \<open>undefined\<close> for a value that does not exist:
  the object parsed from \<open>{"a":1}\<close> has no key \<open>toString\<close> or \<open>constructor\<close>, and the
  evaluator returns the functions inherited from \<open>Object.prototype\<close>, the property read
  not being restricted to own properties.
\<close>

theorem C5_inherited_property_read:
  "isObject (JObj [(js ''a'', JNum 1)]) \<and> \<not> isArray (JObj [(js ''a'', JNum 1)]) \<and>
   map_of [(js ''a'', JNum 1)] (unescapeReferenceToken (js ''toString'')) = None \<and>
   getValue (JObj [(js ''a'', JNum 1)]) (js ''toString'')
     = Inr (JFunction ''Object.prototype.toString'') \<and>
   map_of [(js ''a'', JNum 1)] (unescapeReferenceToken (js ''constructor'')) = None \<and>
   getValue (JObj [(js ''a'', JNum 1)]) (js ''constructor'') = Inr (JFunction ''Object'')"
  by (simp add: get_eval string_eval)

section \<open>The failures of the entry point\<close>

text \<open>
  C6: \<open>get\<close> fails with \<open>INVALID_DOCUMENT_TYPE\<close> exactly when the document is not a
  string; with \<open>INVALID_POINTER\<close> exactly when the document is a string and the pointer
  fails validation; with \<open>INVALID_DOCUMENT\<close> exactly when, both checks passed, the text
  of the document does not parse. The checks come in that order: a document that is not
  a string fails as such whatever the pointer, and while either check fails the parser
  plays no part in the result.
\<close>

theorem C6_failures_in_order:
  "(getPointedValue JSON_parse target pointer = Inl INVALID_DOCUMENT_TYPE \<longleftrightarrow>
      \<not> isString target) \<and>
   (getPointedValue JSON_parse target pointer = Inl INVALID_POINTER \<longleftrightarrow>
      isString target \<and> \<not> isValidJSONPointer pointer) \<and>
   (getPointedValue JSON_parse target pointer = Inl INVALID_DOCUMENT \<longleftrightarrow>
      isValidJSONPointer pointer \<and>
      (\<exists>documentText. string_of target = Some documentText \<and> JSON_parse documentText = None)) \<and>
   (\<not> isString target \<or> \<not> isValidJSONPointer pointer \<longrightarrow>
      getPointedValue JSON_parse target pointer = getPointedValue JSON_parse' target pointer)"
proof (cases "isString target")
  case False
  then show ?thesis
    by (auto simp: getPointedValue_def isString_iff)
next
  case True
  then obtain documentText where tx: "string_of target = Some documentText"
    by (auto simp: isString_iff)
  show ?thesis
  proof (cases "isValidJSONPointer pointer")
    case False
    with True tx show ?thesis
      by (simp add: getPointedValue_def)
  next
    case valid: True
    then have "isString pointer"
      by (simp add: isValidJSONPointer_def split: if_splits)
    then obtain p where p: "string_of pointer = Some p"
      by (auto simp: isString_iff)
    show ?thesis
    proof (cases "JSON_parse documentText")
      case None
      with True valid tx p show ?thesis
        by (simp add: getPointedValue_def)
    next
      case (Some document)
      have "getPointedValue JSON_parse target pointer = resolve_loop document (parsePointer p)"
        using True valid tx p Some
        by (simp add: getPointedValue_def)
      moreover have "resolve_loop document (parsePointer p) \<noteq> Inl INVALID_DOCUMENT_TYPE"
        "resolve_loop document (parsePointer p) \<noteq> Inl INVALID_POINTER"
        "resolve_loop document (parsePointer p) \<noteq> Inl INVALID_DOCUMENT"
        using resolve_loop_errors [of document "parsePointer p"] by auto
      ultimately show ?thesis
        using True valid tx Some by simp
    qed
  qed
qed

theorem C6_failures_in_order_witness:
  "getPointedValue (\<lambda>documentText. None) (Value (JNum 42)) (Value (JStr (js ''no-leading-slash'')))
     = Inl INVALID_DOCUMENT_TYPE \<and>
   getPointedValue (\<lambda>documentText. None) (Value (JStr (js ''not json''))) (Value (JStr (js ''no-leading-slash'')))
     = Inl INVALID_POINTER \<and>
   getPointedValue (\<lambda>documentText. None) (Value (JStr (js ''not json''))) (Value (JStr (js ''/a'')))
     = Inl INVALID_DOCUMENT"
proof -
  have n: "\<not> isString (Value (JNum 42))" by simp
  have s: "isString (Value (JStr (js ''not json'')))" by simp
  have i: "\<not> isValidJSONPointer (Value (JStr (js ''no-leading-slash'')))"
    by (simp add: isValidJSONPointer_string js_def code_unit_def)
  have v: "isValidJSONPointer (Value (JStr (js ''/a'')))"
    by (simp add: isValidJSONPointer_string js_def)
  have t: "string_of (Value (JStr (js ''not json''))) = Some (js ''not json'')" by simp
  from n s i v t
    C6_failures_in_order [of "\<lambda>documentText. None" "Value (JNum 42)" "Value (JStr (js ''no-leading-slash''))"]
    C6_failures_in_order [of "\<lambda>documentText. None" "Value (JStr (js ''not json''))" "Value (JStr (js ''no-leading-slash''))"]
    C6_failures_in_order [of "\<lambda>documentText. None" "Value (JStr (js ''not json''))" "Value (JStr (js ''/a''))"]
  show ?thesis by blast
qed

section \<open>The hyphen in array context\<close>

text \<open>
  C7: in every array context a token that unescapes to \<open>-\<close> fails with
  \<open>HYPHEN_IS_NOT_SUPPORTED_IN_ARRAY_CONTEXT\<close>; the check comes first, for \<open>-\<close> is not
  numeric and would fail the numeric check otherwise; outside an array context no token
  raises this failure.
\<close>

theorem C7_hyphen_rejected_in_arrays:
  "(isArray context \<and> unescapeReferenceToken rawToken = js ''-'' \<longrightarrow>
      getValue context rawToken = Inl HYPHEN_IS_NOT_SUPPORTED_IN_ARRAY_CONTEXT) \<and>
   (\<not> isArray context \<longrightarrow>
      getValue context rawToken \<noteq> Inl HYPHEN_IS_NOT_SUPPORTED_IN_ARRAY_CONTEXT) \<and>
   \<not> isNumber (js ''-'')"
  using isNumber_examples(10) by (auto simp: getValue_def Let_def)

theorem C7_hyphen_rejected_in_arrays_witness:
  "getValue (JArr [JNum 1, JNum 2, JNum 3]) (js ''-'') = Inl HYPHEN_IS_NOT_SUPPORTED_IN_ARRAY_CONTEXT \<and>
   getValue (JObj [(js ''-'', JNum 5)]) (js ''-'') \<noteq> Inl HYPHEN_IS_NOT_SUPPORTED_IN_ARRAY_CONTEXT"
proof -
  have a: "isArray (JArr [JNum 1, JNum 2, JNum 3])" by simp
  have u: "unescapeReferenceToken (js ''-'') = js ''-''"
    by (simp add: string_eval)
  have o: "\<not> isArray (JObj [(js ''-'', JNum 5)])" by simp
  from a u o C7_hyphen_rejected_in_arrays [of "JArr [JNum 1, JNum 2, JNum 3]" "js ''-''"]
    C7_hyphen_rejected_in_arrays [of "JObj [(js ''-'', JNum 5)]" "js ''-''"]
  show ?thesis by blast
qed

section \<open>Leading zeros in array context\<close>

text \<open>
  C8: in every array context a numeric token longer than one character that starts with
  \<open>0\<close> fails with \<open>TOKEN_WITH_LEADING_ZERO_IN_ARRAY_CONTEXT\<close>, \<open>01\<close> for one; the
  token \<open>0\<close> is accepted and gives the first element, or \<open>undefined\<close> when the array
  is empty.
\<close>

theorem C8_leading_zero_rejected:
  "(isArray context \<and> unescapeReferenceToken rawToken = token \<and> isNumber token \<and>
      length token > 1 \<and> token ! 0 = code_unit CHR ''0'' \<longrightarrow>
        getValue context rawToken = Inl TOKEN_WITH_LEADING_ZERO_IN_ARRAY_CONTEXT) \<and>
   getValue (JArr xs) (js ''01'') = Inl TOKEN_WITH_LEADING_ZERO_IN_ARRAY_CONTEXT \<and>
   getValue (JArr xs) (js ''0'') = Inr (case xs of [] \<Rightarrow> JUndefined | x # rest \<Rightarrow> x) \<and>
   getValue JArrayPrototype (js ''0'') = Inr JUndefined"
proof -
  have general: "getValue v raw = Inl TOKEN_WITH_LEADING_ZERO_IN_ARRAY_CONTEXT"
    if "isArray v" "unescapeReferenceToken raw = t" "isNumber t"
      "length t > 1" "t ! 0 = code_unit CHR ''0''" for v raw t
  proof -
    from that(3) isNumber_examples(10) have "js ''-'' \<noteq> t"
      by auto
    with that show ?thesis
      by (simp add: getValue_def Let_def)
  qed
  have u: "unescapeReferenceToken (js ''01'') = js ''01''"
    "unescapeReferenceToken (js ''0'') = js ''0''"
    by (simp_all add: string_eval)
  have one: "getValue (JArr xs) (js ''01'') = Inl TOKEN_WITH_LEADING_ZERO_IN_ARRAY_CONTEXT"
    using isNumber_examples(6) u(1)
    by (intro general [of "JArr xs" "js ''01''" "js ''01''"]) (simp_all add: js_def)
  have i: "array_index (js ''0'') = Some 0"
    by (simp add: array_index_def DecimalDigits_def DecimalDigit_def digit_value_def js_def char_eval)
  have p: "Array_prototype_get v (js ''0'') = JUndefined" for v
    using isNumber_examples(5) by (rule isNumber_not_builtin_name)
  have g: "Get (JArr xs) (js ''0'') = (case xs of [] \<Rightarrow> JUndefined | x # rest \<Rightarrow> x)"
    using i p by (cases xs) simp_all
  have h: "js ''-'' \<noteq> js ''0''" "\<not> 1 < length (js ''0'')"
    by (simp_all add: js_def char_eval)
  have zero: "getValue (JArr xs) (js ''0'')
      = Inr (case xs of [] \<Rightarrow> JUndefined | x # rest \<Rightarrow> x)"
    using isNumber_examples(5) u(2) g h by (simp add: getValue_def Let_def)
  have proto: "getValue JArrayPrototype (js ''0'') = Inr JUndefined"
    using isNumber_examples(5) u(2) p h by (simp add: getValue_def Let_def)
  from general one zero proto show ?thesis
    by blast
qed

theorem C8_leading_zero_rejected_witness:
  "getValue (JArr [JNum 1, JNum 2, JNum 3]) (js ''00'')
     = Inl TOKEN_WITH_LEADING_ZERO_IN_ARRAY_CONTEXT \<and>
   getValue (JArr [JNum 1, JNum 2, JNum 3]) (js ''0'') = Inr (JNum 1) \<and>
   getValue (JArr []) (js ''0'') = Inr JUndefined"
proof -
  let ?a = "JArr [JNum 1, JNum 2, JNum 3]"
  have a: "isArray ?a" by simp
  have u: "unescapeReferenceToken (js ''00'') = js ''00''"
    by (simp add: string_eval)
  have n: "isNumber (js ''00'')"
    by (simp add: number_eval string_eval)
  have l: "length (js ''00'') > 1" "js ''00'' ! 0 = code_unit CHR ''0''"
    by (simp_all add: js_def)
  from a u n l C8_leading_zero_rejected [of ?a "js ''00''" "js ''00''" "[JNum 1, JNum 2, JNum 3]"]
    C8_leading_zero_rejected [of ?a "js ''00''" "js ''00''" "[]"]
  show ?thesis by simp
qed

section \<open>Absence ends the resolution\<close>

text \<open>
  C9: for every document and valid pointer, once the evaluator yields \<open>undefined\<close> for
  a token, the result of \<open>get\<close> is \<open>undefined\<close> whatever tokens remain: the loop stops
  on an undefined value without taking another token. So \<open>/b/-\<close> on \<open>{"a":1}\<close> is
  \<open>undefined\<close>, though \<open>-\<close> is rejected in array context.
\<close>

theorem C9_absent_short_circuits:
  assumes "string_of target = Some documentText" and "JSON_parse documentText = Some document"
    and "isValidJSONPointer pointer" and "string_of pointer = Some p"
    and "tokens_root_to_leaf p = before @ token # remaining"
    and "evaluate_tokens document before = Inr context"
    and "getValue context token = Inr JUndefined"
  shows "getPointedValue JSON_parse target pointer = Inr JUndefined \<and>
         resolve_loop JUndefined (rev remaining) = Inr JUndefined"
proof -
  have "getPointedValue JSON_parse target pointer =
          evaluate_tokens document (before @ token # remaining)"
    using assms(1-5) by (simp add: getPointedValue_resolved)
  also have "\<dots> = evaluate_tokens JUndefined remaining"
    using assms(6,7) by (simp add: evaluate_tokens_append)
  also have "\<dots> = Inr JUndefined"
    by (rule evaluate_tokens_undefined)
  finally show ?thesis
    by (simp add: resolve_loop_undefined)
qed

theorem C9_absent_short_circuits_witness:
  \<open>getPointedValue (\<lambda>documentText. if documentText = js ''{"a":1}'' then Some (JObj [(js ''a'', JNum 1)]) else None)
     (Value (JStr (js ''{"a":1}''))) (Value (JStr (js ''/b/-''))) = Inr JUndefined \<and>
   getValue (JArr []) (js ''-'') = Inl HYPHEN_IS_NOT_SUPPORTED_IN_ARRAY_CONTEXT\<close>
proof -
  let ?documentText = \<open>js ''{"a":1}''\<close>
  let ?doc = "JObj [(js ''a'', JNum 1)]"
  let ?parse = "\<lambda>documentText. if documentText = ?documentText then Some ?doc else None"
  have s: "string_of (Value (JStr ?documentText)) = Some ?documentText" by simp
  have q: "?parse ?documentText = Some ?doc" by simp
  have v: "isValidJSONPointer (Value (JStr (js ''/b/-'')))"
    by (simp add: isValidJSONPointer_string js_def)
  have p: "string_of (Value (JStr (js ''/b/-''))) = Some (js ''/b/-'')" by simp
  have t: "tokens_root_to_leaf (js ''/b/-'') = [] @ js ''b'' # [js ''-'']"
    by (simp add: tokens_examples)
  have b: "evaluate_tokens ?doc [] = Inr ?doc" by simp
  have g: "getValue ?doc (js ''b'') = Inr JUndefined"
    by (simp add: get_eval string_eval)
  have h: "getValue (JArr []) (js ''-'') = Inl HYPHEN_IS_NOT_SUPPORTED_IN_ARRAY_CONTEXT"
    by (simp add: get_eval string_eval)
  from C9_absent_short_circuits [of _ ?documentText ?parse, OF s q v p t b g] h
  show ?thesis by simp
qed

section \<open>Numeric tokens that are no index\<close>

text \<open>
  C10: in every array context a token that passes the numeric check, is not \<open>-\<close>, has
  no rejected leading zero and is not the canonical decimal string of an index within
  the bounds resolves to \<open>undefined\<close>, without failure: so do \<open>-1\<close>, \<open>1.5\<close>,
  \<open> 2\<close> and \<open>1e2\<close>, whatever the array, the token being the key of the property read.
\<close>

theorem C10_noncanonical_numeric_token_absent:
  assumes "isArray context" and "unescapeReferenceToken rawToken = token"
  shows "(isNumber token \<and> token \<noteq> js ''-'' \<and>
          \<not> (length token > 1 \<and> token ! 0 = code_unit CHR ''0'') \<and>
          (\<forall>xs. context = JArr xs \<longrightarrow> (\<forall>i < length xs. token \<noteq> decimal_string i)) \<longrightarrow>
            getValue context rawToken = Inr JUndefined) \<and>
         (token \<in> set [js ''-1'', js ''1.5'', js '' 2'', js ''1e2''] \<longrightarrow>
            getValue context rawToken = Inr JUndefined)"
proof (intro conjI impI)
  assume h: "isNumber token \<and> token \<noteq> js ''-'' \<and>
          \<not> (length token > 1 \<and> token ! 0 = code_unit CHR ''0'') \<and>
          (\<forall>xs. context = JArr xs \<longrightarrow> (\<forall>i < length xs. token \<noteq> decimal_string i))"
  have "\<forall>xs i. context = JArr xs \<longrightarrow> array_index token = Some i \<longrightarrow> length xs \<le> i"
  proof (intro allI impI)
    fix xs i
    assume c: "context = JArr xs" and a: "array_index token = Some i"
    from a have "token = decimal_string i"
      by (rule array_index_decimal_string)
    with h c have "\<not> i < length xs"
      by blast
    then show "length xs \<le> i"
      by simp
  qed
  with assms h show "getValue context rawToken = Inr JUndefined"
    by (intro getValue_array_numeric [where token = token]) simp_all
next
  assume t: "token \<in> set [js ''-1'', js ''1.5'', js '' 2'', js ''1e2'']"
  then have n: "isNumber token"
    using isNumber_examples(1-4) by auto
  from t have z: "\<not> (length token > 1 \<and> token ! 0 = code_unit CHR ''0'')"
    by (auto simp: js_def char_eval)
  from t have "array_index token = None"
    by (auto simp: array_index_def DecimalDigits_def DecimalDigit_def js_def char_eval)
  with assms n z show "getValue context rawToken = Inr JUndefined"
    by (intro getValue_array_numeric [where token = token]) simp_all
qed

theorem C10_noncanonical_numeric_token_absent_witness:
  "getValue (JArr [JNum 1, JNum 2, JNum 3]) (js ''10'') = Inr JUndefined \<and>
   getValue (JArr [JNum 1, JNum 2, JNum 3]) (js ''1e2'') = Inr JUndefined"
proof -
  let ?a = "JArr [JNum 1, JNum 2, JNum 3]"
  have a: "isArray ?a" by simp
  have u: "unescapeReferenceToken (js ''10'') = js ''10''"
    "unescapeReferenceToken (js ''1e2'') = js ''1e2''"
    by (simp_all add: string_eval)
  have n: "isNumber (js ''10'')"
    by (rule isNumber_examples)
  have h: "js ''10'' \<noteq> js ''-''"
    by (simp add: js_eq_iff)
  have z: "\<not> (length (js ''10'') > 1 \<and> js ''10'' ! 0 = code_unit CHR ''0'')"
    by (simp add: js_def char_eval)
  have c: "\<forall>xs. ?a = JArr xs \<longrightarrow> (\<forall>i < length xs. js ''10'' \<noteq> decimal_string i)"
  proof (intro allI impI)
    fix xs and i :: nat
    assume "?a = JArr xs" and "i < length xs"
    then have "i < 10"
      by auto
    then have one: "length (decimal_string i) = 1"
      by (simp add: decimal_string_digit)
    have two: "length (js ''10'') = 2"
      by (simp add: js_def)
    show "js ''10'' \<noteq> decimal_string i"
    proof
      assume "js ''10'' = decimal_string i"
      then have "length (js ''10'') = length (decimal_string i)"
        by (rule arg_cong)
      with one two show False
        by simp
    qed
  qed
  have e: "js ''1e2'' \<in> set [js ''-1'', js ''1.5'', js '' 2'', js ''1e2'']"
    by simp
  from C10_noncanonical_numeric_token_absent [OF a u(1)] n h z c
    C10_noncanonical_numeric_token_absent [OF a u(2)] e
  show ?thesis by blast
qed

end
